theory Spec2Isabelle
  imports
    Complex_Main
    "HOL-Library.AList"
    "HOL-Library.Char_ord"
    "HOL-Library.List_Lexorder"
    "HOL-Library.Product_Lexorder"
    "HOL-Library.Sublist"
    "HOL-Library.Multiset"
    "HOL-Library.Log_Nat"
begin

section \<open>Values, errors and dictionaries\<close>

text \<open>
  The viewer (\<^verbatim>\<open>streamlit_app.py\<close>) works on rows fetched from SQLite and on a decoded
  JSON payload. The scalar values that reach the functions verified here are
  \<^verbatim>\<open>None\<close>, integers (unbounded), floats and strings. A string is a list of code
  points below 256. A float is an IEEE double: a finite double is kept as the rational
  number it denotes (every double denotes one), with the negative zero, the two
  infinities and the NaN as values of their own.
\<close>

datatype pyfloat = FFin rat | FNegZero | FInf bool | FNaN

datatype pyval = PNone | PInt int | PFloat pyfloat | PStr string

text \<open>The exceptions the modelled functions can raise.\<close>

datatype error = TypeError | ValueError | OverflowError

text \<open>
  A Python \<^verbatim>\<open>dict\<close> keeps its keys in insertion order: assigning to a key that is
  present replaces the value in place, assigning to a new key appends it. That is
  \<^const>\<open>AList.update\<close> on an association list. \<^verbatim>\<open>d.get(k, default)\<close> is
  \<open>dict_get\<close>.
\<close>

type_synonym ('k, 'v) dict = "('k \<times> 'v) list"

definition dict_get :: "('k, 'v) dict \<Rightarrow> 'k \<Rightarrow> 'v \<Rightarrow> 'v" where
  "dict_get d k dflt = (case map_of d k of None \<Rightarrow> dflt | Some v \<Rightarrow> v)"

section \<open>Characters, digits and integers as text\<close>

definition is_digit :: "char \<Rightarrow> bool" where
  "is_digit c \<longleftrightarrow> c \<in> set ''0123456789''"

definition is_upper :: "char \<Rightarrow> bool" where
  "is_upper c \<longleftrightarrow> c \<in> set ''ABCDEFGHIJKLMNOPQRSTUVWXYZ''"

definition digit_val :: "char \<Rightarrow> nat" where
  "digit_val c = (of_char c :: nat) - 48"

definition digit_char :: "nat \<Rightarrow> char" where
  "digit_char n = ''0123456789'' ! n"

text \<open>\<^verbatim>\<open>int(s)\<close> on a string of decimal digits.\<close>

definition int_of_digits :: "string \<Rightarrow> nat" where
  "int_of_digits s = fold (\<lambda>c n. 10 * n + digit_val c) s 0"

text \<open>\<^verbatim>\<open>str(n)\<close> for a natural number and for an integer.\<close>

fun str_of_nat :: "nat \<Rightarrow> string" where
  "str_of_nat n =
     (if n < 10 then [digit_char n] else str_of_nat (n div 10) @ [digit_char (n mod 10)])"

declare str_of_nat.simps [simp del]

definition str_of_int :: "int \<Rightarrow> string" where
  "str_of_int i = (if i < 0 then CHR ''-'' # str_of_nat (nat (- i)) else str_of_nat (nat i))"

section \<open>Doubles\<close>

text \<open>Rounding a rational to the nearest integer, ties to the even one.\<close>

definition rne :: "rat \<Rightarrow> int" where
  "rne q = (let f = \<lfloor>q\<rfloor>; d = q - of_int f in
     if d < 1 / 2 then f else if 1 / 2 < d then f + 1 else if even f then f else f + 1)"

text \<open>The integer part of the binary logarithm of a positive rational.\<close>

definition ilog2 :: "rat \<Rightarrow> int" where
  "ilog2 q = (let (a, b) = quotient_of q; k = bitlen a - bitlen b
     in if 2 powi k \<le> q then k else k - 1)"

text \<open>
  The double nearest to a rational (53 significant bits, least exponent \<open>-1074\<close>, ties
  to even), before the range check: a result of magnitude \<open>2 ^ 1024\<close> or more is an
  overflow.
\<close>

definition round_double :: "rat \<Rightarrow> rat" where
  "round_double q =
     (if q = 0 then 0
      else let p = max (ilog2 \<bar>q\<bar> - 52) (- 1074) in of_int (rne (q / 2 powi p)) * 2 powi p)"

definition double_overflow :: "rat \<Rightarrow> bool" where
  "double_overflow q \<longleftrightarrow> 2 ^ 1024 \<le> \<bar>q\<bar>"

text \<open>\<^verbatim>\<open>float(n)\<close> for an integer: OverflowError when the integer is too large.\<close>

definition float_of_int :: "int \<Rightarrow> error + pyfloat" where
  "float_of_int n =
     (let q = round_double (of_int n)
      in if double_overflow q then Inl OverflowError else Inr (FFin q))"

text \<open>
  Arithmetic on doubles that yields a double: the exact result, rounded; an overflow
  gives an infinity. Only finite operands occur where these are used.
\<close>

definition float_result :: "rat \<Rightarrow> pyfloat" where
  "float_result q =
     (let r = round_double q in if double_overflow r then FInf (r < 0) else FFin r)"

section \<open>The field classifier\<close>

text \<open>
  \<^verbatim>\<open>re.match\<close> anchors a pattern at the start of the string only. Each pattern of the
  source is matched by a function of its own.
\<close>

definition match_B43 :: "string \<Rightarrow> bool" where
  \<comment> \<open>\<^verbatim>\<open>^B43[123]\<close>\<close>
  "match_B43 key \<longleftrightarrow> (case key of
     a # b # c # d # _ \<Rightarrow> a = CHR ''B'' \<and> b = CHR ''4'' \<and> c = CHR ''3'' \<and> d \<in> set ''123''
   | _ \<Rightarrow> False)"

definition match_B5 :: "char \<Rightarrow> string \<Rightarrow> bool" where
  \<comment> \<open>\<^verbatim>\<open>^B5[A-G]R\<close> and \<^verbatim>\<open>^B5[A-G]K\<close>, the last letter given\<close>
  "match_B5 l key \<longleftrightarrow> (case key of
     a # b # c # d # _ \<Rightarrow> a = CHR ''B'' \<and> b = CHR ''5'' \<and> c \<in> set ''ABCDEFG'' \<and> d = l
   | _ \<Rightarrow> False)"

definition classify_blok_key :: "string \<Rightarrow> string option" where
  "classify_blok_key key =
     (if match_B43 key then Some (take 4 key)
      else if match_B5 CHR ''R'' key then Some (take 3 key)
      else if match_B5 CHR ''K'' key then Some (take 3 key)
      else if prefix ''B6R'' key then Some ''B6''
      else if prefix ''B7R'' key then Some ''B7''
      else None)"

text \<open>\<^verbatim>\<open>K(\d+)\<close> at the start of a string: the digits matched.\<close>

definition match_K :: "string \<Rightarrow> string option" where
  "match_K s = (case s of
     [] \<Rightarrow> None
   | c # rest \<Rightarrow>
       if c = CHR ''K'' \<and> takeWhile is_digit rest \<noteq> [] then Some (takeWhile is_digit rest)
       else None)"

text \<open>
  \<^verbatim>\<open>R(\d+[A-Z]?)K(\d+)\<close>: the digits are taken greedily; the optional letter is tried
  first (it may be a \<^verbatim>\<open>K\<close> itself), then the match without it.
\<close>

definition match_RK :: "string \<Rightarrow> (string \<times> string) option" where
  "match_RK s = (case s of
     [] \<Rightarrow> None
   | c # rest \<Rightarrow>
       let ds = takeWhile is_digit rest; r1 = dropWhile is_digit rest in
       if c \<noteq> CHR ''R'' \<or> ds = [] then None
       else (case (case r1 of
                     [] \<Rightarrow> None
                   | l # r2 \<Rightarrow>
                       if is_upper l then map_option (\<lambda>col. (ds @ [l], col)) (match_K r2)
                       else None) of
               Some m \<Rightarrow> Some m
             | None \<Rightarrow> map_option (\<lambda>col. (ds, col)) (match_K r1)))"

text \<open>
  \<^verbatim>\<open>R(\d+)$\<close>: without the multi-line flag, \<^verbatim>\<open>$\<close> matches at the end of the string
  and before a newline that ends it.
\<close>

definition match_R_end :: "string \<Rightarrow> string option" where
  "match_R_end s = (case s of
     [] \<Rightarrow> None
   | c # rest \<Rightarrow>
       let ds = takeWhile is_digit rest; r1 = dropWhile is_digit rest in
       if c = CHR ''R'' \<and> ds \<noteq> [] \<and> (r1 = [] \<or> r1 = [CHR 0x0A]) then Some ds else None)"

text \<open>
  The address of a field inside its section, from the field name with the section id
  stripped: the three patterns of \<^verbatim>\<open>parse_blok_data\<close> in their order. The result is the
  row key and the column key.
\<close>

definition parse_suffix :: "string \<Rightarrow> (string \<times> string) option" where
  "parse_suffix sfx = (case match_RK sfx of
     Some (row_num, col_num) \<Rightarrow> Some (row_num, CHR ''K'' # col_num)
   | None \<Rightarrow> (case match_R_end sfx of
       Some row_num \<Rightarrow> Some (row_num, ''K4'')
     | None \<Rightarrow> (case match_K sfx of
         Some col_num \<Rightarrow> Some (''1'', CHR ''K'' # col_num)
       | None \<Rightarrow> None)))"

section \<open>The section table builder\<close>

type_synonym rowtable = "(string, (string, pyval) dict) dict"

text \<open>\<^verbatim>\<open>d.setdefault(k, {})[k2] = v\<close> on a dictionary of dictionaries.\<close>

definition setdefault_set ::
  "'a \<Rightarrow> 'b \<Rightarrow> 'c \<Rightarrow> ('a, ('b, 'c) dict) dict \<Rightarrow> ('a, ('b, 'c) dict) dict" where
  "setdefault_set k k2 v d = AList.update k (AList.update k2 v (dict_get d k [])) d"

text \<open>The first loop of \<^verbatim>\<open>parse_blok_data\<close>: the fields grouped by section.\<close>

definition blok_raw_step ::
  "string \<times> pyval \<Rightarrow> (string, (string, pyval) dict) dict \<Rightarrow> (string, (string, pyval) dict) dict"
  where
  "blok_raw_step kv blok_raw = (case classify_blok_key (fst kv) of
     None \<Rightarrow> blok_raw
   | Some blok_name \<Rightarrow>
       if blok_name \<noteq> [] then setdefault_set blok_name (fst kv) (snd kv) blok_raw
       else blok_raw)"

definition blok_raw_of :: "(string, pyval) dict \<Rightarrow> (string, (string, pyval) dict) dict" where
  "blok_raw_of rekap = fold blok_raw_step rekap []"

text \<open>The inner loop: the rows of one section.\<close>

definition rows_step :: "string \<Rightarrow> string \<times> pyval \<Rightarrow> rowtable \<Rightarrow> rowtable" where
  "rows_step blok_name kv rows = (case parse_suffix (drop (length blok_name) (fst kv)) of
     None \<Rightarrow> rows
   | Some (row_num, col) \<Rightarrow> setdefault_set row_num col (snd kv) rows)"

definition rows_of :: "string \<Rightarrow> (string, pyval) dict \<Rightarrow> rowtable" where
  "rows_of blok_name data = fold (rows_step blok_name) data []"

text \<open>The second loop: a section whose values are all \<^verbatim>\<open>None\<close> is skipped.\<close>

definition blok_tables_step ::
  "string \<times> (string, pyval) dict \<Rightarrow> (string, rowtable) dict \<Rightarrow> (string, rowtable) dict" where
  "blok_tables_step bd blok_tables =
     (if \<not> list_ex (\<lambda>v. v \<noteq> PNone) (map snd (snd bd)) then blok_tables
      else let rows = rows_of (fst bd) (snd bd)
           in if rows \<noteq> [] then AList.update (fst bd) rows blok_tables else blok_tables)"

definition parse_blok_data :: "(string, pyval) dict \<Rightarrow> (string, rowtable) dict" where
  "parse_blok_data rekap = fold blok_tables_step (blok_raw_of rekap) []"

section \<open>Row ordering and labelling\<close>

definition SUB_ROW_BLOKS :: "string set" where
  "SUB_ROW_BLOKS = {''B5E'', ''B5G''}"

definition SUB_ROWS :: "string set" where
  "SUB_ROWS = {''11'', ''12'', ''13'', ''14'', ''15''}"

text \<open>
  The key \<^verbatim>\<open>sort_key\<close> of \<^verbatim>\<open>sort_rows\<close>: a double, here the rational it denotes (the
  keys are finite, and doubles compare as the numbers they denote).
  \<^verbatim>\<open>float(num)\<close> raises OverflowError on an integer beyond the doubles.
\<close>

definition row_sort_key :: "string \<Rightarrow> string \<Rightarrow> error + rat" where
  "row_sort_key blok_name r =
     (let ds = takeWhile is_digit r;
          num = (if ds = [] then 0 else int (int_of_digits ds))
      in if blok_name \<in> SUB_ROW_BLOKS \<and> r \<in> SUB_ROWS
         then Inr (round_double (1 + round_double (of_int (num - 10) / 10)))
         else (case float_of_int num of
                 Inl e \<Rightarrow> Inl e
               | Inr x \<Rightarrow> Inr (case x of FFin q \<Rightarrow> q | _ \<Rightarrow> 0)))"

text \<open>The first error of a list of results, or all the values.\<close>

fun collect :: "('e + 'a) list \<Rightarrow> 'e + 'a list" where
  "collect [] = Inr []"
| "collect (Inl e # _) = Inl e"
| "collect (Inr x # xs) = (case collect xs of Inl e \<Rightarrow> Inl e | Inr ys \<Rightarrow> Inr (x # ys))"

text \<open>
  \<^verbatim>\<open>sorted(row_keys, key=sort_key)\<close>: every key is computed first, then the list is
  sorted by its keys, stably.
\<close>

definition sort_rows :: "string \<Rightarrow> string list \<Rightarrow> error + string list" where
  "sort_rows blok_name row_keys =
     (case collect (map (row_sort_key blok_name) row_keys) of
        Inl e \<Rightarrow> Inl e
      | Inr ks \<Rightarrow> Inr (map snd (sort_key fst (zip ks row_keys))))"

definition row_label :: "string \<Rightarrow> string \<Rightarrow> string" where
  "row_label blok_name row_num =
     (if blok_name \<in> SUB_ROW_BLOKS \<and> row_num \<in> SUB_ROWS
      then ''R1.'' @ str_of_int (int (int_of_digits row_num) - 10)
      else ''R'' @ row_num)"

section \<open>Commodity lines\<close>

text \<open>
  Modelled from the spec: the schema of the table \<^verbatim>\<open>modul_komoditi\<close> is not in the
  source, which only reads its columns. A commodity line has the sequence number
  \<^verbatim>\<open>NoUrutKomoditiFK\<close> (an integer, or absent), the person id \<^verbatim>\<open>IDART\<close> (a string,
  or absent), the value slots \<^verbatim>\<open>Kolom1\<close> .. \<^verbatim>\<open>Kolom14\<close> (any value, \<^verbatim>\<open>None\<close> when
  absent) and the two catalogue columns. \<open>Kolom\<close> holds the slots in order; a slot
  that the list does not reach reads as \<^verbatim>\<open>None\<close>, as \<^verbatim>\<open>item.get\<close> does for a key that
  is missing.
\<close>

record komoditi =
  NoUrutKomoditiFK :: "int option"
  IDART :: "string option"
  Kolom :: "pyval list"
  Rincian :: "string option"
  KodeCOICOP :: "string option"

definition get_kolom :: "komoditi \<Rightarrow> nat \<Rightarrow> pyval" where
  \<comment> \<open>\<^verbatim>\<open>item.get(f"Kolom{i}")\<close>\<close>
  "get_kolom item i =
     (if 1 \<le> i \<and> i \<le> length (Kolom item) then Kolom item ! (i - 1) else PNone)"

definition has_any_value :: "komoditi \<Rightarrow> bool" where
  "has_any_value item \<longleftrightarrow> list_ex (\<lambda>i. get_kolom item i \<noteq> PNone) [1..<15]"

definition no_urut_or_0 :: "komoditi \<Rightarrow> int" where
  \<comment> \<open>\<^verbatim>\<open>k.get("NoUrutKomoditiFK") or 0\<close>\<close>
  "no_urut_or_0 k = (case NoUrutKomoditiFK k of
     None \<Rightarrow> 0
   | Some n \<Rightarrow> if n \<noteq> 0 then n else 0)"

definition idart_or_empty :: "komoditi \<Rightarrow> string" where
  \<comment> \<open>\<^verbatim>\<open>x.get("IDART") or ""\<close>\<close>
  "idart_or_empty x = (case IDART x of
     None \<Rightarrow> []
   | Some s \<Rightarrow> if s \<noteq> [] then s else [])"

definition individu_key :: "komoditi \<Rightarrow> string \<times> int" where
  \<comment> \<open>the key of \<^verbatim>\<open>individu.sort\<close>\<close>
  "individu_key x = (idart_or_empty x, no_urut_or_0 x)"

text \<open>
  \<^verbatim>\<open>list.sort\<close> is stable, as \<^const>\<open>sort_key\<close> is; strings compare by code point and
  tuples lexicographically, as the orders on lists and pairs imported here do.
\<close>

definition split_komoditi ::
  "komoditi list \<Rightarrow> komoditi list \<times> komoditi list \<times> komoditi list" where
  "split_komoditi komoditi_rows =
     (let valid = filter has_any_value komoditi_rows;
          makanan = filter (\<lambda>k. no_urut_or_0 k < 186) valid;
          individu = filter (\<lambda>k. 186 \<le> no_urut_or_0 k \<and> no_urut_or_0 k < 226) valid;
          non_makanan = filter (\<lambda>k. 226 \<le> no_urut_or_0 k) valid
      in (makanan, sort_key individu_key individu, non_makanan))"

section \<open>Person sequence numbers\<close>

definition seen_step :: "komoditi \<Rightarrow> string list \<Rightarrow> string list" where
  "seen_step item seen = (case IDART item of
     None \<Rightarrow> seen
   | Some idart \<Rightarrow> if idart \<noteq> [] \<and> idart \<notin> set seen then seen @ [idart] else seen)"

definition seen_of :: "komoditi list \<Rightarrow> string list" where
  "seen_of individu = fold seen_step individu []"

definition build_idart_map :: "komoditi list \<Rightarrow> (string, int) dict" where
  "build_idart_map individu =
     fold (\<lambda>(idx, idart) m. AList.update idart (int idx + 1) m)
       (enumerate 0 (seen_of individu)) []"

text \<open>
  The lookup of \<^verbatim>\<open>render_komoditi_individu\<close>,
  \<^verbatim>\<open>idart_map.get(item.get("IDART"), "-")\<close>: the number, or the placeholder.
\<close>

definition art_of :: "(string, int) dict \<Rightarrow> komoditi \<Rightarrow> pyval" where
  "art_of idart_map item = (case IDART item of
     None \<Rightarrow> PStr ''-''
   | Some idart \<Rightarrow> (case map_of idart_map idart of None \<Rightarrow> PStr ''-'' | Some n \<Rightarrow> PInt n))"

section \<open>Python's conversions between numbers and text\<close>

subsection \<open>\<^verbatim>\<open>float(s)\<close> for a string\<close>

definition is_space :: "char \<Rightarrow> bool" where
  \<comment> \<open>the code points below 256 that \<^verbatim>\<open>float\<close> strips\<close>
  "is_space c \<longleftrightarrow>
     c \<in> {CHR 0x09, CHR 0x0A, CHR 0x0B, CHR 0x0C, CHR 0x0D, CHR 0x20, CHR 0x85, CHR 0xA0}"

definition strip_space :: "string \<Rightarrow> string" where
  "strip_space s = rev (dropWhile is_space (rev (dropWhile is_space s)))"

text \<open>
  An underscore is accepted between two digits and dropped; anywhere else it makes the
  string invalid. The first argument is the character before.
\<close>

fun drop_underscores :: "char \<Rightarrow> string \<Rightarrow> string option" where
  "drop_underscores prev [] = (if prev = CHR ''_'' then None else Some [])"
| "drop_underscores prev (c # cs) =
     (if c = CHR ''_'' then (if is_digit prev then drop_underscores c cs else None)
      else if prev = CHR ''_'' \<and> \<not> is_digit c then None
      else map_option ((#) c) (drop_underscores c cs))"

definition to_lower :: "char \<Rightarrow> char" where
  "to_lower c = (if is_upper c then char_of (of_char c + (32 :: nat)) else c)"

definition parse_sign :: "string \<Rightarrow> bool \<times> string" where
  "parse_sign s = (case s of
     [] \<Rightarrow> (False, [])
   | c # cs \<Rightarrow> if c = CHR ''-'' then (True, cs) else if c = CHR ''+'' then (False, cs)
       else (False, s))"

text \<open>
  The decimal number after the sign: digits, a point and digits (one digit at least),
  and an exponent, which is read only when it has a digit. The result is the value and
  what is left of the string.
\<close>

definition parse_decimal :: "string \<Rightarrow> (rat \<times> string) option" where
  "parse_decimal s =
     (let ds1 = takeWhile is_digit s; r1 = dropWhile is_digit s;
          (ds2, r2) = (case r1 of
             [] \<Rightarrow> ([], r1)
           | c # cs \<Rightarrow> if c = CHR ''.'' then (takeWhile is_digit cs, dropWhile is_digit cs)
               else ([], r1));
          (ex, r3) = (case r2 of
             [] \<Rightarrow> (0, r2)
           | c # cs \<Rightarrow>
               if c = CHR ''e'' \<or> c = CHR ''E'' then
                 (let (neg, t) = parse_sign cs; es = takeWhile is_digit t
                  in if es = [] then (0, r2)
                     else ((if neg then - int (int_of_digits es) else int (int_of_digits es)),
                           dropWhile is_digit t))
               else (0, r2))
      in if ds1 @ ds2 = [] then None
         else Some (of_nat (int_of_digits (ds1 @ ds2)) * 10 powi (ex - int (length ds2)), r3))"

definition float_of_str :: "string \<Rightarrow> error + pyfloat" where
  "float_of_str s = (case drop_underscores (CHR 0x00) s of
     None \<Rightarrow> Inl ValueError
   | Some t \<Rightarrow>
       let (neg, u) = parse_sign (strip_space t) in
       (case parse_decimal u of
          Some (q, rest) \<Rightarrow>
            if rest \<noteq> [] then Inl ValueError
            else let r = round_double q in
              if double_overflow r then Inr (FInf neg)
              else if r = 0 then Inr (if neg then FNegZero else FFin 0)
              else Inr (FFin (if neg then - r else r))
        | None \<Rightarrow>
            if map to_lower u = ''inf'' \<or> map to_lower u = ''infinity'' then Inr (FInf neg)
            else if map to_lower u = ''nan'' then Inr FNaN
            else Inl ValueError))"

text \<open>\<^verbatim>\<open>float(val)\<close>.\<close>

definition py_float :: "pyval \<Rightarrow> error + pyfloat" where
  "py_float val = (case val of
     PNone \<Rightarrow> Inl TypeError
   | PInt n \<Rightarrow> float_of_int n
   | PFloat x \<Rightarrow> Inr x
   | PStr s \<Rightarrow> float_of_str s)"

text \<open>\<^verbatim>\<open>int(v)\<close> for a float: truncation towards zero.\<close>

definition int_of_float :: "pyfloat \<Rightarrow> error + int" where
  "int_of_float v = (case v of
     FNaN \<Rightarrow> Inl ValueError
   | FInf _ \<Rightarrow> Inl OverflowError
   | FNegZero \<Rightarrow> Inr 0
   | FFin q \<Rightarrow> Inr (if 0 \<le> q then \<lfloor>q\<rfloor> else \<lceil>q\<rceil>))"

text \<open>\<^verbatim>\<open>v == i\<close> for a float and an integer: the comparison is exact.\<close>

definition float_eq_int :: "pyfloat \<Rightarrow> int \<Rightarrow> bool" where
  "float_eq_int v i \<longleftrightarrow> (case v of
     FFin q \<Rightarrow> q = of_int i
   | FNegZero \<Rightarrow> i = 0
   | _ \<Rightarrow> False)"

subsection \<open>The format specifications \<^verbatim>\<open>,.0f\<close> and \<^verbatim>\<open>,.2f\<close>\<close>

fun group_rev :: "string \<Rightarrow> string" where
  "group_rev (a # b # c # d # rest) = a # b # c # CHR '','' # group_rev (d # rest)"
| "group_rev ds = ds"

definition group3 :: "string \<Rightarrow> string" where
  \<comment> \<open>a comma before every group of three digits, from the right\<close>
  "group3 ds = rev (group_rev (rev ds))"

definition fixed_digits :: "nat \<Rightarrow> nat \<Rightarrow> string" where
  \<comment> \<open>\<open>n / 10 ^ prec\<close> written with \<open>prec\<close> decimals and grouped\<close>
  "fixed_digits prec n =
     group3 (str_of_nat (n div 10 ^ prec)) @
     (if prec = 0 then []
      else CHR ''.'' # replicate (prec - length (str_of_nat (n mod 10 ^ prec))) CHR ''0'' @
           str_of_nat (n mod 10 ^ prec))"

text \<open>
  The exact value of the double is rounded to \<open>prec\<close> decimals, ties to even; the sign
  is kept when the result is zero.
\<close>

definition format_f :: "nat \<Rightarrow> pyfloat \<Rightarrow> string" where
  "format_f prec x = (case x of
     FNaN \<Rightarrow> ''nan''
   | FInf neg \<Rightarrow> if neg then ''-inf'' else ''inf''
   | FNegZero \<Rightarrow> CHR ''-'' # fixed_digits prec 0
   | FFin q \<Rightarrow> (if q < 0 then ''-'' else []) @ fixed_digits prec (nat (rne (\<bar>q\<bar> * 10 ^ prec))))"

subsection \<open>\<^verbatim>\<open>str(val)\<close>\<close>

text \<open>The integer part of the decimal logarithm of a positive rational.\<close>

definition ilog10 :: "rat \<Rightarrow> int" where
  "ilog10 q = (let (a, b) = quotient_of q;
       k = int (floorlog 10 (nat a)) - int (floorlog 10 (nat b))
     in if 10 powi k \<le> q then k else k - 1)"

text \<open>
  The two decimals of \<open>n\<close> significant digits around a positive double \<open>q\<close>, as an
  integer and the exponent of its last digit; and the one of them, if any, that reads
  back as \<open>q\<close> (the nearer one when both do).
\<close>

definition repr_candidate :: "rat \<Rightarrow> nat \<Rightarrow> (int \<times> int) option" where
  "repr_candidate q n =
     (let e = ilog10 q - int n + 1;
          lo = \<lfloor>q / 10 powi e\<rfloor>; hi = lo + 1;
          lo_ok = (round_double (of_int lo * 10 powi e) = q);
          hi_ok = (round_double (of_int hi * 10 powi e) = q)
      in if lo_ok \<and> hi_ok then
           (if q - of_int lo * 10 powi e \<le> of_int hi * 10 powi e - q then Some (lo, e)
            else Some (hi, e))
         else if lo_ok then Some (lo, e)
         else if hi_ok then Some (hi, e)
         else None)"

text \<open>The shortest decimal that reads back as the double; 17 digits always do.\<close>

fun shortest_from :: "rat \<Rightarrow> nat \<Rightarrow> nat \<Rightarrow> int \<times> int" where
  "shortest_from q n 0 = (rne (q / 10 powi (ilog10 q - int n + 1)), ilog10 q - int n + 1)"
| "shortest_from q n (Suc fuel) = (case repr_candidate q n of
     Some r \<Rightarrow> r
   | None \<Rightarrow> shortest_from q (Suc n) fuel)"

fun strip_zeros :: "nat \<Rightarrow> int \<times> int \<Rightarrow> int \<times> int" where
  "strip_zeros 0 (c, e) = (c, e)"
| "strip_zeros (Suc k) (c, e) =
     (if c \<noteq> 0 \<and> c mod 10 = 0 then strip_zeros k (c div 10, e + 1) else (c, e))"

definition repr_pos :: "rat \<Rightarrow> string" where
  "repr_pos q =
     (let (c, e) = strip_zeros 17 (shortest_from q 1 16);
          ds = str_of_nat (nat c);
          decpt = e + int (length ds)
      in if decpt \<le> - 4 \<or> 16 < decpt then
           take 1 ds @ (if length ds = 1 then [] else CHR ''.'' # drop 1 ds) @ ''e'' @
           (if decpt - 1 < 0 then ''-'' else ''+'') @
           (if \<bar>decpt - 1\<bar> < 10 then ''0'' else []) @ str_of_nat (nat \<bar>decpt - 1\<bar>)
         else if decpt \<le> 0 then ''0.'' @ replicate (nat (- decpt)) CHR ''0'' @ ds
         else if int (length ds) \<le> decpt then
           ds @ replicate (nat (decpt - int (length ds))) CHR ''0'' @ ''.0''
         else take (nat decpt) ds @ CHR ''.'' # drop (nat decpt) ds)"

definition float_repr :: "pyfloat \<Rightarrow> string" where
  "float_repr x = (case x of
     FNaN \<Rightarrow> ''nan''
   | FInf neg \<Rightarrow> if neg then ''-inf'' else ''inf''
   | FNegZero \<Rightarrow> ''-0.0''
   | FFin q \<Rightarrow> if q = 0 then ''0.0'' else (if q < 0 then ''-'' else []) @ repr_pos \<bar>q\<bar>)"

definition py_str :: "pyval \<Rightarrow> string" where
  "py_str val = (case val of
     PNone \<Rightarrow> ''None''
   | PInt i \<Rightarrow> str_of_int i
   | PFloat x \<Rightarrow> float_repr x
   | PStr s \<Rightarrow> s)"

section \<open>The value formatters\<close>

text \<open>
  The handler \<^verbatim>\<open>except (TypeError, ValueError)\<close> of both formatters: these two errors
  give \<^verbatim>\<open>str(val)\<close>, any other error leaves the function.
\<close>

definition on_error :: "pyval \<Rightarrow> error \<Rightarrow> error + string" where
  "on_error val e = (if e = TypeError \<or> e = ValueError then Inr (py_str val) else Inl e)"

definition fmt_currency :: "pyval \<Rightarrow> error + string" where
  "fmt_currency val =
     (if val = PNone then Inr ''-''
      else (case py_float val of
              Inl e \<Rightarrow> on_error val e
            | Inr x \<Rightarrow> Inr (format_f 0 x)))"

definition fmt_number :: "pyval \<Rightarrow> error + string" where
  "fmt_number val =
     (if val = PNone then Inr ''-''
      else (case py_float val of
              Inl e \<Rightarrow> on_error val e
            | Inr v \<Rightarrow> (case int_of_float v of
                Inl e \<Rightarrow> on_error val e
              | Inr i \<Rightarrow> Inr (if float_eq_int v i then format_f 0 v else format_f 2 v))))"

definition val_or_dash :: "pyval \<Rightarrow> string" where
  "val_or_dash val = (if val = PNone \<or> val = PStr [] then ''-'' else py_str val)"

section \<open>Notions used to state the properties\<close>

text \<open>
  The non-empty person ids of a list of lines, in the order of the lines, and the
  distinct elements of a list in the order of their first appearance.
\<close>

definition person_ids :: "komoditi list \<Rightarrow> string list" where
  "person_ids individu = filter (\<lambda>s. s \<noteq> []) (List.map_filter IDART individu)"

definition first_seen :: "'a list \<Rightarrow> 'a list" where
  "first_seen xs = rev (remdups (rev xs))"

text \<open>Example inputs, used to instantiate the theorems below.\<close>

definition ex_rows :: "komoditi list" where
  "ex_rows =
    [\<lparr>NoUrutKomoditiFK = Some 5, IDART = None, Kolom = [PInt 1],
       Rincian = None, KodeCOICOP = None\<rparr>,
     \<lparr>NoUrutKomoditiFK = Some 200, IDART = Some ''B'', Kolom = [PNone, PInt 2],
       Rincian = None, KodeCOICOP = None\<rparr>,
     \<lparr>NoUrutKomoditiFK = Some 190, IDART = Some ''A'', Kolom = [PInt 4],
       Rincian = None, KodeCOICOP = None\<rparr>,
     \<lparr>NoUrutKomoditiFK = Some 300, IDART = None, Kolom = [PInt 3],
       Rincian = None, KodeCOICOP = None\<rparr>,
     \<lparr>NoUrutKomoditiFK = None, IDART = None, Kolom = [PInt 9],
       Rincian = None, KodeCOICOP = None\<rparr>,
     \<lparr>NoUrutKomoditiFK = Some 7, IDART = None, Kolom = [],
       Rincian = None, KodeCOICOP = None\<rparr>]"

definition ex_individu :: "komoditi list" where
  "ex_individu =
    [\<lparr>NoUrutKomoditiFK = Some 200, IDART = None, Kolom = [PInt 1],
       Rincian = None, KodeCOICOP = None\<rparr>,
     \<lparr>NoUrutKomoditiFK = Some 201, IDART = Some [], Kolom = [PInt 1],
       Rincian = None, KodeCOICOP = None\<rparr>,
     \<lparr>NoUrutKomoditiFK = Some 190, IDART = Some ''A'', Kolom = [PInt 1],
       Rincian = None, KodeCOICOP = None\<rparr>,
     \<lparr>NoUrutKomoditiFK = Some 191, IDART = Some ''A'', Kolom = [PInt 1],
       Rincian = None, KodeCOICOP = None\<rparr>,
     \<lparr>NoUrutKomoditiFK = Some 192, IDART = Some ''B'', Kolom = [PInt 1],
       Rincian = None, KodeCOICOP = None\<rparr>]"





section \<open>Properties of the field classifier\<close>

text \<open>
  C3. The field \<^verbatim>\<open>B432R1K3\<close> is classified to section \<^verbatim>\<open>B432\<close>, row \<^verbatim>\<open>1\<close>, column
  \<^verbatim>\<open>K3\<close>; \<^verbatim>\<open>B6R8\<close> to section \<^verbatim>\<open>B6\<close>, row \<^verbatim>\<open>8\<close>, column \<^verbatim>\<open>K4\<close>; and \<^verbatim>\<open>B5AK5J\<close>
  to section \<^verbatim>\<open>B5A\<close>, row \<^verbatim>\<open>1\<close>, column \<^verbatim>\<open>K5\<close>. The section is what
  \<open>classify_blok_key\<close> returns, the row and the column are what the address patterns
  of \<open>parse_blok_data\<close> read from the name with the section stripped; the last three
  conjuncts say where \<open>parse_blok_data\<close> puts a value \<open>v\<close> of such a field.
\<close>

theorem classify_examples:
  "classify_blok_key ''B432R1K3'' = Some ''B432''
   \<and> parse_suffix (drop (length ''B432'') ''B432R1K3'') = Some (''1'', ''K3'')
   \<and> classify_blok_key ''B6R8'' = Some ''B6''
   \<and> parse_suffix (drop (length ''B6'') ''B6R8'') = Some (''8'', ''K4'')
   \<and> classify_blok_key ''B5AK5J'' = Some ''B5A''
   \<and> parse_suffix (drop (length ''B5A'') ''B5AK5J'') = Some (''1'', ''K5'')
   \<and> parse_blok_data [(''B432R1K3'', v)] =
       (if v = PNone then [] else [(''B432'', [(''1'', [(''K3'', v)])])])
   \<and> parse_blok_data [(''B6R8'', v)] =
       (if v = PNone then [] else [(''B6'', [(''8'', [(''K4'', v)])])])
   \<and> parse_blok_data [(''B5AK5J'', v)] =
       (if v = PNone then [] else [(''B5A'', [(''1'', [(''K5'', v)])])])"
proof -
  have c1: "classify_blok_key ''B432R1K3'' = Some ''B432''" by code_simp
  have p1: "parse_suffix (drop (length ''B432'') ''B432R1K3'') = Some (''1'', ''K3'')"
    by code_simp
  have c2: "classify_blok_key ''B6R8'' = Some ''B6''" by code_simp
  have p2: "parse_suffix (drop (length ''B6'') ''B6R8'') = Some (''8'', ''K4'')"
    by code_simp
  have c3: "classify_blok_key ''B5AK5J'' = Some ''B5A''" by code_simp
  have p3: "parse_suffix (drop (length ''B5A'') ''B5AK5J'') = Some (''1'', ''K5'')"
    by code_simp
  note defs = parse_blok_data_def blok_raw_of_def blok_raw_step_def setdefault_set_def
    dict_get_def blok_tables_step_def rows_of_def rows_step_def
  have t1: "parse_blok_data [(''B432R1K3'', v)] =
      (if v = PNone then [] else [(''B432'', [(''1'', [(''K3'', v)])])])"
    using c1 p1 by (simp add: defs)
  have t2: "parse_blok_data [(''B6R8'', v)] =
      (if v = PNone then [] else [(''B6'', [(''8'', [(''K4'', v)])])])"
    using c2 p2 by (simp add: defs)
  have t3: "parse_blok_data [(''B5AK5J'', v)] =
      (if v = PNone then [] else [(''B5A'', [(''1'', [(''K5'', v)])])])"
    using c3 p3 by (simp add: defs)
  from c1 p1 c2 p2 c3 p3 t1 t2 t3 show ?thesis by blast
qed

section \<open>Properties of the row ordering\<close>

lemma insort_key_decorate:
  "insort_key fst (f x, x) (map (\<lambda>y. (f y, y)) ys) = map (\<lambda>y. (f y, y)) (insort_key f x ys)"
  by (induction ys) simp_all

lemma sort_key_decorate:
  "sort_key fst (map (\<lambda>y. (f y, y)) xs) = map (\<lambda>y. (f y, y)) (sort_key f xs)"
  by (induction xs) (simp_all add: insort_key_decorate)

lemma collect_map_Inr: "collect (map (\<lambda>x. Inr (f x)) xs) = Inr (map f xs)"
  by (induction xs) simp_all

lemma zip_map_self: "zip (map f xs) xs = map (\<lambda>y. (f y, y)) xs"
  by (induction xs) simp_all

text \<open>When every key is computed, \<open>sort_rows\<close> is the stable sort by that key.\<close>

lemma sort_rows_total_keys:
  assumes "\<forall>r \<in> set row_keys. row_sort_key blok_name r = Inr (f r)"
  shows "sort_rows blok_name row_keys = Inr (sort_key f row_keys)"
proof -
  have "map (row_sort_key blok_name) row_keys = map (\<lambda>x. Inr (f x)) row_keys"
    using assms by simp
  then show ?thesis
    unfolding sort_rows_def
    by (simp only: collect_map_Inr zip_map_self sort_key_decorate sum.case map_map comp_def
        snd_conv list.map_ident)
qed

lemma flagged_keys:
  "row_sort_key ''B5E'' ''1'' = Inr 1"
  "row_sort_key ''B5E'' ''2'' = Inr 2"
  "row_sort_key ''B5E'' ''11'' = Inr (2476979795053773 / 2251799813685248)"
  "row_sort_key ''B5E'' ''13'' = Inr (5854679515581645 / 4503599627370496)"
  "row_sort_key ''B5G'' ''1'' = Inr 1"
  "row_sort_key ''B5G'' ''2'' = Inr 2"
  "row_sort_key ''B5G'' ''11'' = Inr (2476979795053773 / 2251799813685248)"
  "row_sort_key ''B5G'' ''13'' = Inr (5854679515581645 / 4503599627370496)"
  by code_simp+

text \<open>
  C4. For a section flagged as having sub-rows (\<^verbatim>\<open>B5E\<close> or \<^verbatim>\<open>B5G\<close>), ordering the
  row keys \<^verbatim>\<open>1\<close>, \<^verbatim>\<open>2\<close>, \<^verbatim>\<open>11\<close>, \<^verbatim>\<open>13\<close>, in whatever order the dictionary lists them,
  yields \<^verbatim>\<open>1\<close>, \<^verbatim>\<open>11\<close>, \<^verbatim>\<open>13\<close>, \<^verbatim>\<open>2\<close>, and the labels of these rows are \<^verbatim>\<open>R1\<close>,
  \<^verbatim>\<open>R1.1\<close>, \<^verbatim>\<open>R1.3\<close>, \<^verbatim>\<open>R2\<close>.
\<close>

theorem sort_rows_flagged_example:
  assumes blok: "blok_name \<in> SUB_ROW_BLOKS"
    and keys: "set row_keys = {''1'', ''2'', ''11'', ''13''}"
    and dist: "distinct row_keys"
  shows "sort_rows blok_name row_keys = Inr [''1'', ''11'', ''13'', ''2'']
    \<and> map (row_label blok_name) [''1'', ''11'', ''13'', ''2''] =
        [''R1'', ''R1.1'', ''R1.3'', ''R2'']"
proof -
  let ?f = "\<lambda>r. case row_sort_key blok_name r of Inr q \<Rightarrow> q | Inl _ \<Rightarrow> 0"
  let ?ys = "[''1'', ''11'', ''13'', ''2'']"
  from blok have b: "blok_name = ''B5E'' \<or> blok_name = ''B5G''"
    by (simp add: SUB_ROW_BLOKS_def)
  have k: "row_sort_key blok_name ''1'' = Inr 1"
    "row_sort_key blok_name ''2'' = Inr 2"
    "row_sort_key blok_name ''11'' = Inr (2476979795053773 / 2251799813685248)"
    "row_sort_key blok_name ''13'' = Inr (5854679515581645 / 4503599627370496)"
    using b flagged_keys by auto
  have tot: "\<forall>r \<in> set row_keys. row_sort_key blok_name r = Inr (?f r)"
    using keys k by auto
  have "mset row_keys = mset ?ys"
    using keys dist by (intro set_eq_iff_mset_eq_distinct[THEN iffD1]) auto
  moreover have "inj_on ?f (set row_keys)"
    unfolding keys by (simp add: k)
  moreover have "sorted (map ?f ?ys)"
    by (simp add: k)
  ultimately have "sort_key ?f row_keys = ?ys"
    by (rule sort_key_inj_key_eq)
  with sort_rows_total_keys[OF tot] have 1: "sort_rows blok_name row_keys = Inr ?ys"
    by simp
  have lab: "map (row_label ''B5E'') ?ys = [''R1'', ''R1.1'', ''R1.3'', ''R2'']"
    "map (row_label ''B5G'') ?ys = [''R1'', ''R1.1'', ''R1.3'', ''R2'']"
    by code_simp+
  from b lab have 2: "map (row_label blok_name) ?ys = [''R1'', ''R1.1'', ''R1.3'', ''R2'']"
    by auto
  from 1 2 show ?thesis by simp
qed

theorem sort_rows_flagged_example_witness:
  "sort_rows ''B5E'' [''1'', ''2'', ''11'', ''13''] = Inr [''1'', ''11'', ''13'', ''2'']
   \<and> map (row_label ''B5E'') [''1'', ''11'', ''13'', ''2''] =
       [''R1'', ''R1.1'', ''R1.3'', ''R2'']"
proof -
  have "''B5E'' \<in> SUB_ROW_BLOKS" by (simp add: SUB_ROW_BLOKS_def)
  moreover have "set [''1'', ''2'', ''11'', ''13''] = {''1'', ''2'', ''11'', ''13''}" by simp
  moreover have "distinct [''1'', ''2'', ''11'', ''13'']" by simp
  ultimately show ?thesis by (rule sort_rows_flagged_example)
qed

section \<open>Properties of the commodity classifier\<close>

lemma split_komoditi_eq:
  "split_komoditi rows =
    (filter (\<lambda>k. has_any_value k \<and> no_urut_or_0 k < 186) rows,
     sort_key individu_key
       (filter (\<lambda>k. has_any_value k \<and> 186 \<le> no_urut_or_0 k \<and> no_urut_or_0 k < 226) rows),
     filter (\<lambda>k. has_any_value k \<and> 226 \<le> no_urut_or_0 k) rows)"
  by (simp add: split_komoditi_def Let_def conj_commute)

lemma no_urut_Some: "NoUrutKomoditiFK k = Some n \<Longrightarrow> no_urut_or_0 k = n"
  by (simp add: no_urut_or_0_def)


lemma ex_rows_split:
  "split_komoditi ex_rows =
     ([ex_rows ! 0, ex_rows ! 4], [ex_rows ! 2, ex_rows ! 1], [ex_rows ! 3])"
  by code_simp

lemma ex_rows_facts:
  "has_any_value (ex_rows ! 0)" "NoUrutKomoditiFK (ex_rows ! 0) = Some 5"
  "has_any_value (ex_rows ! 4)" "NoUrutKomoditiFK (ex_rows ! 4) = None"
  "\<not> has_any_value (ex_rows ! 5)" "NoUrutKomoditiFK (ex_rows ! 5) = Some 7"
  by code_simp+

lemma ex_rows_mem: "ex_rows ! 0 \<in> set ex_rows" "ex_rows ! 4 \<in> set ex_rows" "ex_rows ! 5 \<in> set ex_rows"
  by (simp_all add: ex_rows_def)

text \<open>
  C2. For every list of commodity lines, the three buckets are pairwise disjoint; their
  union is exactly the input lines that have a value in one of the 14 slots (as sets,
  and line for line, as multisets); every such line whose sequence number is below 186
  is in the food bucket; and a line with no value in any slot is in none of the three
  buckets.
\<close>

theorem split_komoditi_partition:
  "case split_komoditi rows of (makanan, individu, non_makanan) \<Rightarrow>
     set makanan \<inter> set individu = {} \<and> set makanan \<inter> set non_makanan = {}
     \<and> set individu \<inter> set non_makanan = {}
     \<and> set makanan \<union> set individu \<union> set non_makanan = {k \<in> set rows. has_any_value k}
     \<and> mset makanan + mset individu + mset non_makanan = mset (filter has_any_value rows)
     \<and> (\<forall>k \<in> set rows. \<forall>n. has_any_value k \<and> NoUrutKomoditiFK k = Some n \<and> n < 186
           \<longrightarrow> k \<in> set makanan)
     \<and> (\<forall>k. \<not> has_any_value k \<longrightarrow>
           k \<notin> set makanan \<and> k \<notin> set individu \<and> k \<notin> set non_makanan)"
proof -
  let ?A = "\<lambda>k. has_any_value k \<and> no_urut_or_0 k < 186"
  let ?B = "\<lambda>k. has_any_value k \<and> 186 \<le> no_urut_or_0 k \<and> no_urut_or_0 k < 226"
  let ?C = "\<lambda>k. has_any_value k \<and> 226 \<le> no_urut_or_0 k"
  have m: "mset (filter ?A rows) + mset (filter ?B rows) + mset (filter ?C rows)
      = mset (filter has_any_value rows)"
    by (induction rows) auto
  show ?thesis
    unfolding split_komoditi_eq prod.case
    apply (intro conjI)
    subgoal by auto
    subgoal by auto
    subgoal by auto
    subgoal by auto
    subgoal using m by simp
    subgoal by (auto simp: no_urut_Some)
    subgoal by auto
    done
qed

theorem split_komoditi_partition_witness:
  "ex_rows ! 0 \<in> set (fst (split_komoditi ex_rows))
   \<and> ex_rows ! 5 \<notin> set (fst (split_komoditi ex_rows))
   \<and> set (fst (split_komoditi ex_rows)) \<inter> set (fst (snd (split_komoditi ex_rows))) = {}"
proof -
  have h: "has_any_value (ex_rows ! 0) \<and> NoUrutKomoditiFK (ex_rows ! 0) = Some 5 \<and> (5::int) < 186"
    using ex_rows_facts by simp
  have n: "\<not> has_any_value (ex_rows ! 5)" by (rule ex_rows_facts)
  obtain m i nm where s: "split_komoditi ex_rows = (m, i, nm)"
    by (cases "split_komoditi ex_rows") auto
  from split_komoditi_partition[of ex_rows] have
    a: "set m \<inter> set i = {}" and
    b: "\<forall>k \<in> set ex_rows. \<forall>n. has_any_value k \<and> NoUrutKomoditiFK k = Some n \<and> n < 186
           \<longrightarrow> k \<in> set m" and
    c: "\<forall>k. \<not> has_any_value k \<longrightarrow> k \<notin> set m \<and> k \<notin> set i \<and> k \<notin> set nm"
    unfolding s by simp_all
  from b ex_rows_mem(1) h have "ex_rows ! 0 \<in> set m" by blast
  moreover from c n have "ex_rows ! 5 \<notin> set m" by blast
  ultimately show ?thesis using a by (simp add: s)
qed




section \<open>Properties of the person-sequence assigner\<close>

lemma remdups_snoc: "remdups (ys @ [x]) = filter (\<lambda>y. y \<noteq> x) (remdups ys) @ [x]"
  by (induction ys) auto

lemma first_seen_Cons: "first_seen (x # xs) = x # first_seen (filter (\<lambda>y. y \<noteq> x) xs)"
  by (simp add: first_seen_def remdups_snoc remdups_filter rev_filter)

lemma first_seen_Nil: "first_seen [] = []"
  by (simp add: first_seen_def)

lemma set_first_seen: "set (first_seen xs) = set xs"
  by (simp add: first_seen_def)

lemma distinct_first_seen: "distinct (first_seen xs)"
  by (simp add: first_seen_def)

lemma first_seen_filter: "first_seen (filter P xs) = filter P (first_seen xs)"
  by (simp add: first_seen_def remdups_filter rev_filter)

lemma fold_seen_ids:
  "fold (\<lambda>s seen. if s \<notin> set seen then seen @ [s] else seen) xs acc =
     acc @ first_seen (filter (\<lambda>x. x \<notin> set acc) xs)"
proof (induction xs arbitrary: acc)
  case Nil
  then show ?case by (simp add: first_seen_Nil)
next
  case (Cons x xs)
  show ?case
  proof (cases "x \<in> set acc")
    case True
    then show ?thesis by (simp add: Cons.IH)
  next
    case False
    have "filter (\<lambda>y. y \<notin> set (acc @ [x])) xs = filter (\<lambda>y. y \<noteq> x) (filter (\<lambda>y. y \<notin> set acc) xs)"
      by (induction xs) auto
    with False show ?thesis
      by (simp add: Cons.IH first_seen_Cons)
  qed
qed

lemma fold_seen_step:
  "fold seen_step individu acc =
     fold (\<lambda>s seen. if s \<notin> set seen then seen @ [s] else seen) (person_ids individu) acc"
proof (induction individu arbitrary: acc)
  case Nil
  then show ?case by (simp add: person_ids_def List.map_filter_simps)
next
  case (Cons item individu)
  show ?case
  proof (cases "IDART item")
    case None
    then show ?thesis
      using Cons.IH by (simp add: seen_step_def person_ids_def List.map_filter_simps)
  next
    case (Some s)
    then show ?thesis
      using Cons.IH by (simp add: seen_step_def person_ids_def List.map_filter_simps)
  qed
qed

lemma seen_of_eq: "seen_of individu = first_seen (person_ids individu)"
  by (simp add: seen_of_def fold_seen_step fold_seen_ids)

lemma fold_update_fresh:
  "distinct (map snd ps) \<Longrightarrow> set (map snd ps) \<inter> fst ` set m = {} \<Longrightarrow>
   fold (\<lambda>(idx, idart) m. AList.update idart (int idx + 1) m) ps m =
     m @ map (\<lambda>(idx, idart). (idart, int idx + 1)) ps"
proof (induction ps arbitrary: m)
  case Nil
  then show ?case by simp
next
  case (Cons p ps)
  obtain i s where p: "p = (i, s)" by (cases p)
  from Cons.prems p have fresh: "s \<notin> fst ` set m" by auto
  then have u: "AList.update s (int i + 1) m = m @ [(s, int i + 1)]"
    by (induction m) auto
  have "set (map snd ps) \<inter> fst ` set (m @ [(s, int i + 1)]) = {}"
    using Cons.prems p by auto
  moreover have "distinct (map snd ps)" using Cons.prems by simp
  ultimately show ?case
    using Cons.IH[of "m @ [(s, int i + 1)]"] by (simp add: p u)
qed

lemma build_idart_map_eq:
  "build_idart_map individu =
     zip (first_seen (person_ids individu))
       (map (\<lambda>i. int i + 1) [0..<length (first_seen (person_ids individu))])"
proof -
  let ?s = "first_seen (person_ids individu)"
  have d: "distinct (map snd (enumerate 0 ?s))"
    by (simp add: distinct_first_seen)
  have "build_idart_map individu = map (\<lambda>(idx, idart). (idart, int idx + 1)) (enumerate 0 ?s)"
    unfolding build_idart_map_def seen_of_eq
    using fold_update_fresh[OF d, of "[]"] by simp
  also have "\<dots> = zip ?s (map (\<lambda>i. int i + 1) [0..<length ?s])"
    by (simp add: enumerate_eq_zip zip_map2 zip_map1 zip_commute[of ?s] case_prod_unfold map_zip_map map_zip_map2)
  finally show ?thesis .
qed

lemma person_ids_filter:
  "person_ids (filter (\<lambda>item. IDART item \<noteq> None \<and> IDART item \<noteq> Some []) individu) =
     person_ids individu"
  by (induction individu) (auto simp: person_ids_def List.map_filter_simps)

lemma zip_count_bij:
  assumes d: "distinct S"
  shows "bij_betw (\<lambda>p. the (map_of (zip S (map (\<lambda>i. int i + 1) [0..<length S])) p))
           (set S) {1..int (length S)}"
proof -
  let ?vs = "map (\<lambda>i. int i + 1) [0..<length S]"
  let ?f = "\<lambda>p. the (map_of (zip S ?vs) p)"
  have at: "?f (S ! i) = int i + 1" if "i < length S" for i
    using that d by (simp add: map_of_zip_nth)
  have inj: "inj_on ?f (set S)"
  proof (rule inj_onI)
    fix a b assume a: "a \<in> set S" and b: "b \<in> set S" and e: "?f a = ?f b"
    from a obtain i where i: "i < length S" "S ! i = a" by (auto simp: in_set_conv_nth)
    from b obtain j where j: "j < length S" "S ! j = b" by (auto simp: in_set_conv_nth)
    from e at[OF i(1)] at[OF j(1)] i j have "i = j" by simp
    with i j show "a = b" by simp
  qed
  have img: "?f ` set S = {1..int (length S)}"
  proof (rule set_eqI, rule iffI)
    fix k assume "k \<in> ?f ` set S"
    then obtain a where a: "a \<in> set S" "k = ?f a" by blast
    from a(1) obtain i where i: "i < length S" "S ! i = a" by (auto simp: in_set_conv_nth)
    from at[OF i(1)] i a show "k \<in> {1..int (length S)}" by simp
  next
    fix k assume k: "k \<in> {1..int (length S)}"
    then have i: "nat (k - 1) < length S" by auto
    from at[OF i] k have "?f (S ! nat (k - 1)) = k" by simp
    moreover have "S ! nat (k - 1) \<in> set S" using i by simp
    ultimately show "k \<in> ?f ` set S" by (metis imageI)
  qed
  from inj img show ?thesis by (simp add: bij_betw_def)
qed

text \<open>
  C5. For every list of individual-food lines (sorted or not), the person-sequence map
  has as its keys the distinct non-empty person ids, in the order of their first
  appearance, and as its values 1, 2, .., N in that order, N being the number of those
  ids: it is a bijection from the ids onto 1..N. The empty id has no number, a line
  whose id is empty or absent is shown the placeholder, and leaving such lines out
  gives the same map (they consume no number). The map is a function of the list:
  building it again gives the same map.
\<close>

theorem build_idart_map_bijection:
  "let ids = person_ids individu; m = build_idart_map individu; N = card (set ids) in
     map fst m = first_seen ids \<and> map snd m = map int [1..<Suc N]
     \<and> distinct (map fst m) \<and> dom (map_of m) = set ids
     \<and> bij_betw (\<lambda>p. the (map_of m p)) (set ids) {1..int N}
     \<and> map_of m [] = None
     \<and> build_idart_map
          (filter (\<lambda>item. IDART item \<noteq> None \<and> IDART item \<noteq> Some []) individu) = m
     \<and> (\<forall>item \<in> set individu. IDART item = None \<or> IDART item = Some [] \<longrightarrow>
           art_of m item = PStr ''-'')
     \<and> build_idart_map individu = m"
proof -
  let ?ids = "person_ids individu"
  let ?S = "first_seen ?ids"
  let ?vs = "map (\<lambda>i. int i + 1) [0..<length ?S]"
  let ?m = "build_idart_map individu"
  have m: "?m = zip ?S ?vs" by (rule build_idart_map_eq)
  have len: "length ?S = card (set ?ids)"
    using distinct_card[OF distinct_first_seen, of ?ids] by (simp add: set_first_seen)
  have f: "map fst ?m = ?S" by (simp add: m)
  have "map snd ?m = ?vs" by (simp add: m)
  also have "?vs = map int [1..<Suc (length ?S)]"
    by (simp add: map_Suc_upt[symmetric] del: upt_Suc)
  finally have s: "map snd ?m = map int [1..<Suc (card (set ?ids))]" by (simp add: len)
  have d: "distinct (map fst ?m)" by (simp add: f distinct_first_seen)
  have dm: "dom (map_of ?m) = set ?ids"
    by (simp add: dom_map_of_conv_image_fst f[symmetric] set_first_seen
        flip: set_map) (simp add: f set_first_seen)
  have b: "bij_betw (\<lambda>p. the (map_of ?m p)) (set ?ids) {1..int (card (set ?ids))}"
    using zip_count_bij[OF distinct_first_seen, of ?ids] by (simp add: m set_first_seen len)
  have ne: "[] \<notin> set ?ids" by (simp add: person_ids_def)
  with dm have e: "map_of ?m [] = None" by (metis domIff)
  have c: "build_idart_map
       (filter (\<lambda>item. IDART item \<noteq> None \<and> IDART item \<noteq> Some []) individu) = ?m"
    by (simp only: build_idart_map_eq person_ids_filter)
  have a: "\<forall>item \<in> set individu. IDART item = None \<or> IDART item = Some [] \<longrightarrow>
      art_of ?m item = PStr ''-''"
    using e by (auto simp: art_of_def)
  from f s d dm b e c a show ?thesis by (simp add: Let_def)
qed

lemma ex_individu_facts:
  "IDART (ex_individu ! 0) = None" "ex_individu ! 0 \<in> set ex_individu"
  by (simp_all add: ex_individu_def)

theorem build_idart_map_bijection_witness:
  "map_of (build_idart_map ex_individu) [] = None
   \<and> art_of (build_idart_map ex_individu) (ex_individu ! 0) = PStr ''-''
   \<and> build_idart_map ex_individu = [(''A'', 1), (''B'', 2)]"
proof -
  have e: "build_idart_map ex_individu = [(''A'', 1), (''B'', 2)]" by code_simp
  from build_idart_map_bijection[of ex_individu] have
    a: "map_of (build_idart_map ex_individu) [] = None" and
    b: "\<forall>item \<in> set ex_individu. IDART item = None \<or> IDART item = Some [] \<longrightarrow>
          art_of (build_idart_map ex_individu) item = PStr ''-''"
    by (simp_all add: Let_def)
  from b ex_individu_facts have "art_of (build_idart_map ex_individu) (ex_individu ! 0) = PStr ''-''"
    by blast
  with a e show ?thesis by simp
qed

section \<open>Properties of the section table builder\<close>















end
